theory Spec2Isabelle
  imports Main "HOL-Library.Word"
begin

section \<open>Values the chat client reads from the stream\<close>

text \<open>
  The client (component \<open>ChatInterface\<close>, function \<open>handleSubmit\<close>) hands the payload of
  each record to the runtime's \<open>JSON.parse\<close> and then reads the properties \<open>type\<close>,
  \<open>sources\<close>, \<open>content\<close>, \<open>error\<close> and \<open>done\<close> of the result without validating it.
  A parsed value is therefore any JSON value. Text is a \<open>string\<close>, one \<open>char\<close> for each
  UTF-16 code unit below 256. A number is kept as the text JavaScript prints for it
  (\<open>String(n)\<close>): the client only concatenates numbers to text and tests them for
  truthiness, and a number from JSON is falsy exactly when it prints as \<open>0\<close>.
\<close>

datatype jsval =
    JNull
  | JBool bool
  | JNum string
  | JStr string
  | JArr "jsval list"
  | JObj "(string \<times> jsval) list"

text \<open>
  Property read \<open>data.k\<close> on a value that is not \<open>null\<close>, for the five names above:
  \<open>None\<close> is \<open>undefined\<close>. Only an object can own one of these names.
\<close>

fun field :: "jsval \<Rightarrow> string \<Rightarrow> jsval option" where
  "field (JObj kvs) k = map_of kvs k"
| "field _ k = None"

fun join_comma :: "string list \<Rightarrow> string" where
  "join_comma [] = []"
| "join_comma [s] = s"
| "join_comma (s # t # ss) = s @ '','' @ join_comma (t # ss)"

text \<open>
  JavaScript's conversion of a value to text, as \<open>+=\<close> on a string and \<open>new Error(v)\<close>
  apply it; \<open>None\<close> is the \<open>TypeError\<close> it raises. An array prints its elements joined by
  commas, \<open>null\<close> elements as nothing. An object is converted by the methods \<open>valueOf\<close> and
  \<open>toString\<close> it has: a parsed object inherits both, \<open>valueOf\<close> giving the object back and
  \<open>toString\<close> the text \<open>[object Object]\<close>, unless it owns a key of that name, whose value
  (a JSON value) cannot be called. So an object that owns the key \<open>toString\<close> has no
  conversion, and any other object prints as \<open>[object Object]\<close>.
\<close>

fun to_string :: "jsval \<Rightarrow> string option" where
  "to_string JNull = Some ''null''"
| "to_string (JBool b) = Some (if b then ''true'' else ''false'')"
| "to_string (JNum s) = Some s"
| "to_string (JStr s) = Some s"
| "to_string (JArr xs) =
     map_option join_comma (those (map (\<lambda>x. if x = JNull then Some [] else to_string x) xs))"
| "to_string (JObj kvs) =
     (case map_of kvs ''toString'' of None \<Rightarrow> Some ''[object Object]'' | Some f \<Rightarrow> None)"

text \<open>Truthiness of a property read (\<open>data.error || ...\<close>, \<open>data.done\<close>).\<close>

fun truthy :: "jsval option \<Rightarrow> bool" where
  "truthy None = False"
| "truthy (Some JNull) = False"
| "truthy (Some (JBool b)) = b"
| "truthy (Some (JNum s)) = (s \<noteq> ''0'')"
| "truthy (Some (JStr s)) = (s \<noteq> [])"
| "truthy (Some (JArr xs)) = True"
| "truthy (Some (JObj kvs)) = True"

section \<open>Text operations of the read loop\<close>

text \<open>\<open>String.prototype.trim\<close>: white space and line terminators below code unit 256.\<close>

definition is_ws :: "char \<Rightarrow> bool" where
  "is_ws c = (c \<in> {CHR 0x09, CHR 0x0A, CHR 0x0B, CHR 0x0C, CHR 0x0D, CHR 0x20, CHR 0xA0})"

definition trim :: "string \<Rightarrow> string" where
  "trim s = rev (dropWhile is_ws (rev (dropWhile is_ws s)))"

text \<open>
  \<open>buffer.split('\n')\<close>: the pieces between the newlines, in order; always at least one
  piece, the last one being the text after the last newline.
\<close>

fun split_nl :: "string \<Rightarrow> string list" where
  "split_nl [] = [[]]"
| "split_nl (c # cs) =
     (if c = CHR 0x0A then [] # split_nl cs
      else (case split_nl cs of [] \<Rightarrow> [[c]] | l # ls \<Rightarrow> (c # l) # ls))"

section \<open>Chat state\<close>

datatype Role = Assistant | User

text \<open>
  \<open>interface Message\<close>. The optional fields are \<open>None\<close> when absent; \<open>sources\<close> holds
  whatever value the record carried.
\<close>

record Message =
  role :: Role
  content :: string
  sources :: "jsval option"
  isThinking :: "bool option"

text \<open>
  What can be thrown inside \<open>handleSubmit\<close>'s \<open>try\<close> block: an \<open>Error\<close> the client
  builds itself, or an exception of the runtime (a \<open>SyntaxError\<close> of \<open>JSON.parse\<close>, a
  \<open>TypeError\<close> of a property read on \<open>null\<close>, a rejected network read).
\<close>

datatype thrown = Error string | SyntaxError | TypeError | NetworkError

text \<open>
  The text \<open>error.message\<close> that the \<open>catch\<close> block passes to \<open>setError\<close>. The message of
  a runtime exception is the runtime's own wording.
\<close>

datatype message_text = Text string | SyntaxErrorText | TypeErrorText | NetworkErrorText

fun message_of :: "thrown \<Rightarrow> message_text" where
  "message_of (Error s) = Text s"
| "message_of SyntaxError = SyntaxErrorText"
| "message_of TypeError = TypeErrorText"
| "message_of NetworkError = NetworkErrorText"

datatype request = ChatStreamPost string

text \<open>
  The state the component works on: the message list (owned by the page), the component's
  own \<open>error\<close>, \<open>isProcessing\<close> and \<open>isThinking\<close> hooks, the values printed by
  \<open>console.log('Parsed data:', data)\<close> in order, and the requests issued with \<open>fetch\<close>.
\<close>

record ChatState =
  messages :: "Message list"
  error :: "message_text option"
  isProcessing :: bool
  isThinkingFlag :: bool
  parsedLog :: "jsval list"
  requests :: "request list"

text \<open>
  How a piece of the \<open>try\<close> block ends: normally (with the state and the local
  \<open>messageContent\<close>), by an exception (with the state reached when it was thrown), or by
  a \<open>TypeError\<close> inside a \<open>setMessages\<close> updater, which React raises while rendering,
  outside the \<open>try\<close> block.
\<close>

datatype outcome = Ok ChatState string | Thrown thrown ChatState | RenderFailed

section \<open>Applying one decoded record (the reducer)\<close>

text \<open>
  The updater given to \<open>setMessages\<close> for a \<open>sources\<close> record. It copies the list and
  assigns to the last message when that is the assistant's. On an empty list
  \<open>lastMessage\<close> is \<open>undefined\<close> and reading \<open>lastMessage.role\<close> raises: \<open>None\<close>.
\<close>

definition set_sources :: "jsval option \<Rightarrow> Message list \<Rightarrow> Message list option" where
  "set_sources v prev =
     (if prev = [] then None
      else let lastMessage = last prev in
        if role lastMessage = Assistant
        then Some (butlast prev @ [lastMessage\<lparr>sources := v, isThinking := Some True\<rparr>])
        else Some prev)"

text \<open>The updater for a \<open>token\<close> record, with the text accumulated so far.\<close>

definition set_token :: "string \<Rightarrow> Message list \<Rightarrow> Message list option" where
  "set_token messageContent prev =
     (if prev = [] then None
      else let lastMessage = last prev in
        if role lastMessage = Assistant
        then Some (butlast prev @ [lastMessage\<lparr>isThinking := Some False, content := messageContent\<rparr>])
        else Some prev)"

text \<open>
  What \<open>throw new Error(data.error || 'Unknown error occurred')\<close> throws, from what
  \<open>data.error\<close> reads: the \<open>Error\<close> with the text of the value as its message, or the
  \<open>TypeError\<close> of a value that has no conversion to text.
\<close>

fun error_thrown :: "jsval option \<Rightarrow> thrown" where
  "error_thrown None = Error ''Unknown error occurred''"
| "error_thrown (Some e) =
     (if truthy (Some e)
      then (case to_string e of None \<Rightarrow> TypeError | Some m \<Rightarrow> Error m)
      else Error ''Unknown error occurred'')"

text \<open>
  The dispatch on \<open>data.type\<close>, on the state and the local \<open>messageContent\<close>. Reading
  \<open>data.type\<close> of \<open>null\<close> raises a \<open>TypeError\<close>; every other parsed value can be read.
  In the \<open>token\<close> branch \<open>messageContent += data.content\<close> comes before \<open>setMessages\<close>, so
  a content without conversion to text throws and leaves the messages as they are.
\<close>

definition handle_data :: "ChatState \<Rightarrow> string \<Rightarrow> jsval \<Rightarrow> outcome" where
  "handle_data st messageContent data =
     (if data = JNull then Thrown TypeError st
      else if field data ''type'' = Some (JStr ''sources'') then
        (case set_sources (field data ''sources'') (messages st) of
           None \<Rightarrow> RenderFailed
         | Some ms \<Rightarrow> Ok (st\<lparr>messages := ms\<rparr>) messageContent)
      else if field data ''type'' = Some (JStr ''token'') then
        (case field data ''content'' of
           None \<Rightarrow> Ok st messageContent
         | Some c \<Rightarrow>
             (case to_string c of
                None \<Rightarrow> Thrown TypeError st
              | Some text \<Rightarrow>
                  (case set_token (messageContent @ text) (messages st) of
                     None \<Rightarrow> RenderFailed
                   | Some ms \<Rightarrow> Ok (st\<lparr>messages := ms\<rparr>) (messageContent @ text))))
      else if field data ''type'' = Some (JStr ''error'') then
        Thrown (error_thrown (field data ''error'')) st
      else if field data ''type'' = Some (JStr ''done'') \<or> truthy (field data ''done'') then
        Ok (st\<lparr>isProcessing := False\<rparr>) messageContent
      else Ok st messageContent)"

section \<open>Decoding lines (the stream decoder)\<close>

text \<open>
  \<open>JSON.parse\<close> belongs to the runtime and is a parameter: \<open>None\<close> is its \<open>SyntaxError\<close>.
  One line of the \<open>for\<close> loop: a line that, trimmed, starts with \<open>data: \<close> is parsed from
  its seventh character on, printed and dispatched; the \<open>catch\<close> around it rethrows.
  Any other line is passed over.
\<close>

definition handle_line ::
  "(string \<Rightarrow> jsval option) \<Rightarrow> ChatState \<Rightarrow> string \<Rightarrow> string \<Rightarrow> outcome" where
  "handle_line parse st messageContent line =
     (let trimmedLine = trim line in
      if take 6 trimmedLine = ''data: '' then
        (case parse (drop 6 trimmedLine) of
           None \<Rightarrow> Thrown SyntaxError st
         | Some data \<Rightarrow> handle_data (st\<lparr>parsedLog := parsedLog st @ [data]\<rparr>) messageContent data)
      else Ok st messageContent)"

fun handle_lines ::
  "(string \<Rightarrow> jsval option) \<Rightarrow> ChatState \<Rightarrow> string \<Rightarrow> string list \<Rightarrow> outcome" where
  "handle_lines parse st messageContent [] = Ok st messageContent"
| "handle_lines parse st messageContent (line # lines) =
     (case handle_line parse st messageContent line of
        Ok st' messageContent' \<Rightarrow> handle_lines parse st' messageContent' lines
      | Thrown e st' \<Rightarrow> Thrown e st'
      | RenderFailed \<Rightarrow> RenderFailed)"

section \<open>The read loop, the stop button and the turn\<close>

text \<open>\<open>handleStop\<close>: two hooks are reset; nothing else is done.\<close>

definition handleStop :: "ChatState \<Rightarrow> ChatState" where
  "handleStop st = st\<lparr>isThinkingFlag := False, isProcessing := False\<rparr>"

text \<open>
  What happens at each \<open>await reader.read()\<close>, in order: a chunk of bytes arrives, the read
  is rejected, or (the loop being suspended) the user presses the stop button and
  \<open>handleStop\<close> runs. The end of the list is the end of the stream (\<open>done\<close> is true).
\<close>

datatype stream_step = Chunk "8 word list" | ReadFailed | StopClicked

text \<open>
  The \<open>TextDecoder\<close> is the runtime's and is a parameter too: from its state and a chunk
  it gives the decoded text and its next state (\<open>decode(value, {stream: true})\<close>).
  The loop appends the text to the buffer, splits at the newlines, handles every piece
  but the last and keeps the last piece as the new buffer.
\<close>

fun read_loop ::
  "(string \<Rightarrow> jsval option) \<Rightarrow> ('d \<Rightarrow> 8 word list \<Rightarrow> string \<times> 'd) \<Rightarrow>
   ChatState \<Rightarrow> 'd \<Rightarrow> string \<Rightarrow> string \<Rightarrow> stream_step list \<Rightarrow> outcome" where
  "read_loop parse decode st d buffer messageContent [] = Ok st messageContent"
| "read_loop parse decode st d buffer messageContent (Chunk value # rest) =
     (case decode d value of (text, d') \<Rightarrow>
        (let lines = split_nl (buffer @ text) in
         case handle_lines parse st messageContent (butlast lines) of
           Ok st' messageContent' \<Rightarrow>
             read_loop parse decode st' d' (last lines) messageContent' rest
         | Thrown e st' \<Rightarrow> Thrown e st'
         | RenderFailed \<Rightarrow> RenderFailed))"
| "read_loop parse decode st d buffer messageContent (ReadFailed # rest) = Thrown NetworkError st"
| "read_loop parse decode st d buffer messageContent (StopClicked # rest) =
     read_loop parse decode (handleStop st) d buffer messageContent rest"

text \<open>
  The \<open>catch\<close> block: the message of the exception goes to the error hook, the last
  message is sliced off the list, the processing flag is cleared.
\<close>

definition catch_error :: "thrown \<Rightarrow> ChatState \<Rightarrow> ChatState" where
  "catch_error e st =
     st\<lparr>error := Some (message_of e), messages := butlast (messages st), isProcessing := False\<rparr>"

text \<open>
  From \<open>new TextDecoder()\<close> (its initial state \<open>d0\<close>) to the end of the \<open>catch\<close> block:
  after the loop the processing flag is cleared; an exception runs the \<open>catch\<close> block.
  \<open>None\<close>: rendering failed and there is no component state any more.
\<close>

fun finish_turn :: "outcome \<Rightarrow> ChatState option" where
  "finish_turn (Ok st messageContent) = Some (st\<lparr>isProcessing := False\<rparr>)"
| "finish_turn (Thrown e st) = Some (catch_error e st)"
| "finish_turn RenderFailed = None"

definition stream_turn ::
  "(string \<Rightarrow> jsval option) \<Rightarrow> ('d \<Rightarrow> 8 word list \<Rightarrow> string \<times> 'd) \<Rightarrow>
   'd \<Rightarrow> ChatState \<Rightarrow> stream_step list \<Rightarrow> ChatState option" where
  "stream_turn parse decode d0 st steps = finish_turn (read_loop parse decode st d0 [] [] steps)"

text \<open>The two messages \<open>handleSubmit\<close> appends before it sends the request.\<close>

definition user_message :: "string \<Rightarrow> Message" where
  "user_message message = \<lparr>role = User, content = message, sources = None, isThinking = None\<rparr>"

definition placeholder :: Message where
  "placeholder = \<lparr>role = Assistant, content = [], sources = None, isThinking = Some True\<rparr>"

text \<open>How \<open>fetch\<close> answers the request of a turn.\<close>

datatype response = FetchRejected | NotOk | NoBody | Body "stream_step list"

text \<open>
  \<open>handleSubmit\<close>. \<open>textarea\<close> is the value of the text area (\<open>None\<close>: the ref is empty).
  A blank message or a turn in progress returns at once. Otherwise the user's message and
  the assistant's placeholder are appended and the request is issued.
\<close>

definition handleSubmit ::
  "(string \<Rightarrow> jsval option) \<Rightarrow> ('d \<Rightarrow> 8 word list \<Rightarrow> string \<times> 'd) \<Rightarrow>
   'd \<Rightarrow> ChatState \<Rightarrow> string option \<Rightarrow> response \<Rightarrow> ChatState option" where
  "handleSubmit parse decode d0 st textarea resp =
     (case textarea of
        None \<Rightarrow> Some st
      | Some v \<Rightarrow>
          (let message = trim v in
           if message = [] \<or> isProcessing st then Some st
           else
             (let st1 = st\<lparr>error := None, isProcessing := True,
                    messages := messages st @ [user_message message] @ [placeholder],
                    requests := requests st @ [ChatStreamPost message]\<rparr>
              in case resp of
                   FetchRejected \<Rightarrow> Some (catch_error NetworkError st1)
                 | NotOk \<Rightarrow> Some (catch_error (Error ''Failed to get response'') st1)
                 | NoBody \<Rightarrow> Some (catch_error (Error ''No response body'') st1)
                 | Body steps \<Rightarrow> stream_turn parse decode d0 st1 steps)))"

section \<open>Records and streams\<close>

text \<open>
  The records a list of lines holds, in order: for each line that, trimmed, starts with
  \<open>data: \<close>, what \<open>JSON.parse\<close> makes of the rest (\<open>None\<close>: nothing).
\<close>

fun records_of :: "(string \<Rightarrow> jsval option) \<Rightarrow> string list \<Rightarrow> jsval option list" where
  "records_of parse [] = []"
| "records_of parse (line # lines) =
     (if take 6 (trim line) = ''data: ''
      then parse (drop 6 (trim line)) # records_of parse lines
      else records_of parse lines)"

text \<open>
  The \<open>for\<close> loop seen from the records: each one is printed and dispatched, in order,
  until one throws.
\<close>

fun handle_records :: "ChatState \<Rightarrow> string \<Rightarrow> jsval list \<Rightarrow> outcome" where
  "handle_records st messageContent [] = Ok st messageContent"
| "handle_records st messageContent (data # rest) =
     (case handle_data (st\<lparr>parsedLog := parsedLog st @ [data]\<rparr>) messageContent data of
        Ok st' messageContent' \<Rightarrow> handle_records st' messageContent' rest
      | Thrown e st' \<Rightarrow> Thrown e st'
      | RenderFailed \<Rightarrow> RenderFailed)"

text \<open>
  The records at which the dispatch throws: \<open>null\<close>, a record of type \<open>error\<close>, and a
  record of type \<open>token\<close> whose content has no conversion to text.
\<close>

definition throws :: "jsval \<Rightarrow> bool" where
  "throws data =
     (data = JNull \<or> field data ''type'' = Some (JStr ''error'') \<or>
      (field data ''type'' = Some (JStr ''token'') \<and>
       (case field data ''content'' of None \<Rightarrow> False | Some c \<Rightarrow> to_string c = None)))"

text \<open>The text a decoder returns for a sequence of chunks, piece after piece.\<close>

fun decoded_text :: "('d \<Rightarrow> 8 word list \<Rightarrow> string \<times> 'd) \<Rightarrow> 'd \<Rightarrow> 8 word list list \<Rightarrow> string" where
  "decoded_text decode d [] = []"
| "decoded_text decode d (value # rest) =
     (case decode d value of (text, d') \<Rightarrow> text @ decoded_text decode d' rest)"

text \<open>
  What \<open>{stream: true}\<close> means for the runtime's decoder: bytes given in two pieces decode
  to the same text, and leave the same state, as the bytes given at once; no bytes give
  no text.
\<close>

definition streaming :: "('d \<Rightarrow> 8 word list \<Rightarrow> string \<times> 'd) \<Rightarrow> bool" where
  "streaming decode =
     ((\<forall>d. decode d [] = ([], d)) \<and>
      (\<forall>d a b. decode d (a @ b) =
         (case decode d a of (t1, d1) \<Rightarrow> (case decode d1 b of (t2, d2) \<Rightarrow> (t1 @ t2, d2)))))"

text \<open>
  For the examples: the bytes of a text, and a decoder that reads every byte as one code
  unit, which is what the runtime's decoder does on ASCII bytes.
\<close>

definition bytes_of :: "string \<Rightarrow> 8 word list" where
  "bytes_of s = map of_char s"

definition ascii_decode :: "unit \<Rightarrow> 8 word list \<Rightarrow> string \<times> unit" where
  "ascii_decode d value = (map (\<lambda>b. char_of (unat b)) value, d)"

text \<open>The steps of a turn with the presses of the stop button taken out.\<close>

fun without_stops :: "stream_step list \<Rightarrow> stream_step list" where
  "without_stops [] = []"
| "without_stops (StopClicked # steps) = without_stops steps"
| "without_stops (step # steps) = step # without_stops steps"

text \<open>An outcome with the resets of the stop button applied to the state it carries.\<close>

fun stopped :: "outcome \<Rightarrow> outcome" where
  "stopped (Ok st mc) = Ok (handleStop st) mc"
| "stopped (Thrown e st) = Thrown e (handleStop st)"
| "stopped RenderFailed = RenderFailed"

text \<open>The state an outcome carries has issued the same requests as a given state.\<close>

fun same_requests :: "ChatState \<Rightarrow> outcome \<Rightarrow> bool" where
  "same_requests st (Ok st' mc) = (requests st' = requests st)"
| "same_requests st (Thrown e st') = (requests st' = requests st)"
| "same_requests st RenderFailed = True"

text \<open>
  The records of the wire protocol (\<open>interface StreamResponse\<close>), as \<open>JSON.parse\<close> returns
  them.
\<close>

abbreviation sources_record :: "jsval \<Rightarrow> jsval" where
  "sources_record v \<equiv> JObj [(''type'', JStr ''sources''), (''sources'', v)]"

abbreviation token_record :: "string \<Rightarrow> jsval" where
  "token_record s \<equiv> JObj [(''type'', JStr ''token''), (''content'', JStr s)]"

abbreviation done_record :: jsval where
  "done_record \<equiv> JObj [(''type'', JStr ''done'')]"

abbreviation error_record :: "string \<Rightarrow> jsval" where
  "error_record s \<equiv> JObj [(''type'', JStr ''error''), (''error'', JStr s)]"

text \<open>
  For the examples: \<open>JSON.parse\<close> on the payloads the examples send (anything else is
  taken as malformed), a source list, and the state of a fresh page (its greeting, the
  hooks at their initial values).
\<close>

abbreviation example_sources :: jsval where
  "example_sources \<equiv>
     JArr [JObj [(''source'', JStr ''a.pdf''), (''path'', JStr ''/x/a.pdf'')]]"

definition example_parse :: "string \<Rightarrow> jsval option" where
  \<open>example_parse = map_of
     [(''{"type":"sources","sources":[{"source":"a.pdf","path":"/x/a.pdf"}]}'',
         sources_record example_sources),
      (''{"type":"token","content":"Hi"}'', token_record ''Hi''),
      (''{"type":"token","content":" there"}'', token_record '' there''),
      (''{"type":"token","content":""}'', token_record []),
      (''{"type":"token"}'', JObj [(''type'', JStr ''token'')]),
      (''{"type":"done"}'', done_record),
      (''{"type":"error","error":"boom"}'', error_record ''boom''),
      (''{"type":"error","error":{"toString":0}}'',
         JObj [(''type'', JStr ''error''), (''error'', JObj [(''toString'', JNum ''0'')])]),
      (''{"type":"token","content":{"toString":0}}'',
         JObj [(''type'', JStr ''token''), (''content'', JObj [(''toString'', JNum ''0'')])]),
      (''null'', JNull)]\<close>

definition greeting :: Message where
  "greeting = \<lparr>role = Assistant, content = ''Hello there! How can I help you today?'',
                sources = None, isThinking = None\<rparr>"

definition initial_state :: ChatState where
  "initial_state =
     \<lparr>messages = [greeting], error = None, isProcessing = False, isThinkingFlag = False,
      parsedLog = [], requests = []\<rparr>"

text \<open>The state when the request for the message \<open>hello\<close> has been sent from a fresh page.\<close>

definition submitted :: ChatState where
  "submitted =
     initial_state\<lparr>error := None, isProcessing := True,
       messages := messages initial_state @ [user_message ''hello''] @ [placeholder],
       requests := requests initial_state @ [ChatStreamPost ''hello'']\<rparr>"

section \<open>The supervisor's exit handler\<close>

text \<open>
  The main process keeps the window, the child process, its port and a readiness flag in
  globals. \<open>mainWindow\<close> is \<open>None\<close> while there is no window (before it is created, and
  after its \<open>closed\<close> event), else \<open>Some d\<close> with \<open>d\<close> what \<open>isDestroyed()\<close> answers.
  \<open>timers\<close> lists the \<open>setTimeout\<close> calls made (delay in milliseconds and callback),
  \<open>signalled\<close> the signals sent to child processes.
\<close>

datatype timer_callback = StartBackend

record Supervisor =
  mainWindow :: "bool option"
  backendProcess :: "nat option"
  backendPort :: nat
  backendReady :: bool
  timers :: "(nat \<times> timer_callback) list"
  signalled :: "(nat \<times> string) list"

text \<open>The listener \<open>backendProcess.on('exit', (code, signal) => ...)\<close>.\<close>

definition on_exit :: "Supervisor \<Rightarrow> int option \<Rightarrow> string option \<Rightarrow> Supervisor" where
  "on_exit sv code signal =
     (let sv1 = sv\<lparr>backendReady := False\<rparr> in
      case mainWindow sv1 of
        None \<Rightarrow> sv1
      | Some destroyed \<Rightarrow>
          if destroyed then sv1 else sv1\<lparr>timers := timers sv1 @ [(5000, StartBackend)]\<rparr>)"

text \<open>\<open>stopBackend\<close>, called from the \<open>before-quit\<close> handler.\<close>

definition stopBackend :: "Supervisor \<Rightarrow> Supervisor" where
  "stopBackend sv =
     (case backendProcess sv of
        None \<Rightarrow> sv
      | Some p \<Rightarrow> sv\<lparr>signalled := signalled sv @ [(p, ''SIGTERM'')],
                     backendProcess := None, backendReady := False\<rparr>)"

text \<open>
  For the examples: the supervisor with a child process that runs and is ready, no timer
  set and no signal sent, and the window as given.
\<close>

definition ready_supervisor :: "bool option \<Rightarrow> Supervisor" where
  "ready_supervisor w =
     \<lparr>mainWindow = w, backendProcess = Some 4242, backendPort = 8000, backendReady = True,
      timers = [], signalled = []\<rparr>"

section \<open>Splitting at newlines\<close>

lemma split_nl_nonempty: "split_nl s \<noteq> []"
  by (induction s) (auto split: list.splits)

lemma split_nl_append:
  "split_nl (a @ b) = butlast (split_nl a) @ [last (split_nl a) @ hd (split_nl b)] @ tl (split_nl b)"
proof (induction a)
  case Nil
  then show ?case using split_nl_nonempty [of b] by (cases "split_nl b") auto
next
  case (Cons c cs)
  then show ?case using split_nl_nonempty [of cs] split_nl_nonempty [of b]
    by (cases "split_nl cs") (auto split: list.splits)
qed

lemma last_split_nl_no_newline: "CHR 0x0A \<notin> set (last (split_nl s))"
  using split_nl_nonempty by (induction s) (auto split: list.splits)

lemma split_nl_no_newline: "CHR 0x0A \<notin> set s \<Longrightarrow> split_nl s = [s]"
  by (induction s) (auto split: list.splits)

text \<open>
  The complete lines of a text given in two parts: those of the first part, then those of
  what the first part left over followed by the second part.
\<close>

lemma butlast_split_nl_append:
  "butlast (split_nl (a @ b)) = butlast (split_nl a) @ butlast (split_nl (last (split_nl a) @ b))"
proof -
  let ?x = "last (split_nl a)"
  have x: "split_nl ?x = [?x]"
    by (rule split_nl_no_newline) (rule last_split_nl_no_newline)
  have "split_nl (?x @ b) = [?x @ hd (split_nl b)] @ tl (split_nl b)"
    by (subst split_nl_append) (simp add: x)
  then show ?thesis
    by (subst split_nl_append) (simp add: butlast_append)
qed

section \<open>The read loop handles the complete lines of the whole text\<close>

lemma handle_lines_append:
  "handle_lines parse st mc (xs @ ys) =
     (case handle_lines parse st mc xs of
        Ok st' mc' \<Rightarrow> handle_lines parse st' mc' ys
      | Thrown e st' \<Rightarrow> Thrown e st'
      | RenderFailed \<Rightarrow> RenderFailed)"
  by (induction xs arbitrary: st mc) (auto split: outcome.splits)

lemma read_loop_chunks:
  "CHR 0x0A \<notin> set buffer \<Longrightarrow>
   read_loop parse decode st d buffer mc (map Chunk cs) =
   handle_lines parse st mc (butlast (split_nl (buffer @ decoded_text decode d cs)))"
proof (induction cs arbitrary: st d buffer mc)
  case Nil
  then show ?case by (simp add: split_nl_no_newline)
next
  case (Cons c cs)
  obtain t d' where dec: "decode d c = (t, d')" by (cases "decode d c")
  let ?lines = "split_nl (buffer @ t)"
  have nl: "CHR 0x0A \<notin> set (last ?lines)" by (rule last_split_nl_no_newline)
  have "butlast (split_nl (buffer @ decoded_text decode d (c # cs))) =
        butlast ?lines @ butlast (split_nl (last ?lines @ decoded_text decode d' cs))"
    using butlast_split_nl_append [of "buffer @ t" "decoded_text decode d' cs"]
    by (simp add: dec)
  then show ?case
    by (simp add: dec handle_lines_append Cons.IH [OF nl] split: outcome.splits)
qed

lemma decoded_text_streaming:
  "streaming decode \<Longrightarrow> decoded_text decode d cs = fst (decode d (concat cs))"
proof (induction cs arbitrary: d)
  case Nil
  then show ?case by (simp add: streaming_def)
next
  case (Cons c cs)
  from Cons.prems have "decode d (c @ concat cs) =
      (case decode d c of (t1, d1) \<Rightarrow> (case decode d1 (concat cs) of (t2, d2) \<Rightarrow> (t1 @ t2, d2)))"
    unfolding streaming_def by blast
  then show ?case using Cons.IH [OF Cons.prems]
    by (simp split: prod.splits)
qed

lemma read_loop_whole_text:
  assumes "streaming decode"
  shows "read_loop parse decode st d0 [] [] (map Chunk cs) =
         handle_lines parse st [] (butlast (split_nl (fst (decode d0 (concat cs)))))"
  using read_loop_chunks [of "[]" parse decode st d0 "[]" cs]
  by (simp add: decoded_text_streaming [OF assms])

lemma streaming_ascii_decode: "streaming ascii_decode"
  by (simp add: streaming_def ascii_decode_def)

lemma handle_lines_records:
  "records_of parse lines = map Some ds \<Longrightarrow>
   handle_lines parse st mc lines = handle_records st mc ds"
proof (induction lines arbitrary: st mc ds)
  case Nil
  then show ?case by simp
next
  case (Cons l ls)
  show ?case
  proof (cases "take 6 (trim l) = ''data: ''")
    case True
    with Cons.prems obtain x xs where ds: "ds = x # xs" and p: "parse (drop 6 (trim l)) = Some x"
      and r: "records_of parse ls = map Some xs"
      by (cases ds) auto
    show ?thesis using True p Cons.IH [OF r]
      by (simp add: ds handle_line_def split: outcome.splits)
  next
    case False
    with Cons.prems have "records_of parse ls = map Some ds" by simp
    from Cons.IH [OF this] False show ?thesis by (simp add: handle_line_def)
  qed
qed

text \<open>
  Submitting \<open>hello\<close> on a fresh page runs the turn from the state \<open>submitted\<close>.
\<close>

lemma handleSubmit_hello:
  "handleSubmit parse decode d0 initial_state (Some ''hello'') (Body steps) =
   stream_turn parse decode d0 submitted steps"
proof -
  have "trim ''hello'' = ''hello''" by code_simp
  then show ?thesis
    by (simp add: handleSubmit_def submitted_def initial_state_def Let_def)
qed

section \<open>Chunk boundaries\<close>

text \<open>
  C1. However the byte stream is cut into chunks, the read loop ends as it does when the
  whole stream comes as one chunk: the same outcome of the loop and the same state after
  the turn, with the same records printed in the same order. The decoder is any decoder
  that decodes in streaming mode.
\<close>

theorem chunk_boundary_invariance:
  assumes "streaming decode"
  shows "read_loop parse decode st d0 [] [] (map Chunk cs) =
           read_loop parse decode st d0 [] [] [Chunk (concat cs)]
       \<and> stream_turn parse decode d0 st (map Chunk cs) =
           stream_turn parse decode d0 st [Chunk (concat cs)]"
proof -
  have "read_loop parse decode st d0 [] [] (map Chunk [concat cs]) =
        handle_lines parse st [] (butlast (split_nl (fst (decode d0 (concat cs)))))"
    using read_loop_whole_text [OF assms, of parse st d0 "[concat cs]"] by simp
  then show ?thesis
    by (simp add: stream_turn_def read_loop_whole_text [OF assms])
qed

theorem chunk_boundary_invariance_witness:
  \<open>streaming ascii_decode \<and>
   stream_turn example_parse ascii_decode () submitted
     (map Chunk [bytes_of ''da'',
                 bytes_of (''ta: {"type":"token","content":"Hi"}'' @ [CHR 0x0A] @ ''data: {"ty''),
                 bytes_of (''pe":"done"}'' @ [CHR 0x0A])]) =
   stream_turn example_parse ascii_decode () submitted
     [Chunk (concat [bytes_of ''da'',
                 bytes_of (''ta: {"type":"token","content":"Hi"}'' @ [CHR 0x0A] @ ''data: {"ty''),
                 bytes_of (''pe":"done"}'' @ [CHR 0x0A])])]\<close>
proof -
  have s: "streaming ascii_decode"
    by (simp add: streaming_def ascii_decode_def)
  show ?thesis
    using s chunk_boundary_invariance [OF s] by blast
qed

section \<open>The end-to-end scenario\<close>

text \<open>
  C2. The message list ends with the assistant's placeholder (empty content, thinking).
  The stream, however it is cut into chunks, holds the records \<open>sources\<close> (with a source
  list), \<open>token\<close> \<open>Hi\<close>, \<open>token\<close> \<open> there\<close> and \<open>done\<close>, in this order. After the turn the
  last message is the assistant's, its content is \<open>Hi there\<close>, its sources are the list
  delivered and it is not thinking; the messages before it are as they were.
\<close>

theorem end_to_end_scenario:
  assumes "streaming decode"
    and "records_of parse (butlast (split_nl (fst (decode d0 (concat cs))))) =
           map Some [sources_record srcs, token_record ''Hi'', token_record '' there'', done_record]"
  shows "stream_turn parse decode d0 (st\<lparr>messages := ms @ [placeholder]\<rparr>) (map Chunk cs) =
         Some (st\<lparr>messages := ms @ [\<lparr>role = Assistant, content = ''Hi there'',
                                       sources = Some srcs, isThinking = Some False\<rparr>],
                  isProcessing := False,
                  parsedLog := parsedLog st @ [sources_record srcs, token_record ''Hi'',
                                               token_record '' there'', done_record]\<rparr>)"
  unfolding stream_turn_def read_loop_whole_text [OF assms(1)] handle_lines_records [OF assms(2)]
  by (simp add: handle_data_def set_sources_def set_token_def placeholder_def)

theorem end_to_end_scenario_witness:
  \<open>streaming ascii_decode \<and>
   records_of example_parse (butlast (split_nl (fst (ascii_decode () (concat
       [bytes_of (''data: {"type":"sources","sources":[{"source":"a.pdf","path":"/x/a.pdf"}]}'' @ [CHR 0x0A]),
        bytes_of (''data: {"type":"token","content":"Hi"}'' @ [CHR 0x0A]),
        bytes_of (''data: {"type":"token","content":" there"}'' @ [CHR 0x0A]),
        bytes_of (''data: {"type":"done"}'' @ [CHR 0x0A])]))))) =
     map Some [sources_record example_sources, token_record ''Hi'', token_record '' there'', done_record] \<and>
   stream_turn example_parse ascii_decode () submitted
       (map Chunk
       [bytes_of (''data: {"type":"sources","sources":[{"source":"a.pdf","path":"/x/a.pdf"}]}'' @ [CHR 0x0A]),
        bytes_of (''data: {"type":"token","content":"Hi"}'' @ [CHR 0x0A]),
        bytes_of (''data: {"type":"token","content":" there"}'' @ [CHR 0x0A]),
        bytes_of (''data: {"type":"done"}'' @ [CHR 0x0A])]) =
     Some (submitted\<lparr>messages := [greeting, user_message ''hello'',
                \<lparr>role = Assistant, content = ''Hi there'',
                 sources = Some example_sources, isThinking = Some False\<rparr>],
              isProcessing := False,
              parsedLog := [sources_record example_sources, token_record ''Hi'',
                            token_record '' there'', done_record]\<rparr>)\<close>
proof -
  have s: "streaming ascii_decode"
    by (simp add: streaming_def ascii_decode_def)
  have r: \<open>records_of example_parse (butlast (split_nl (fst (ascii_decode () (concat
       [bytes_of (''data: {"type":"sources","sources":[{"source":"a.pdf","path":"/x/a.pdf"}]}'' @ [CHR 0x0A]),
        bytes_of (''data: {"type":"token","content":"Hi"}'' @ [CHR 0x0A]),
        bytes_of (''data: {"type":"token","content":" there"}'' @ [CHR 0x0A]),
        bytes_of (''data: {"type":"done"}'' @ [CHR 0x0A])]))))) =
     map Some [sources_record example_sources, token_record ''Hi'', token_record '' there'', done_record]\<close>
    by code_simp
  have e: "submitted\<lparr>messages := [greeting, user_message ''hello''] @ [placeholder]\<rparr> = submitted"
    by (simp add: submitted_def initial_state_def)
  have p: "parsedLog submitted = []"
    by (simp add: submitted_def initial_state_def)
  show ?thesis
    using s r end_to_end_scenario [OF s r, where st = submitted
        and ms = "[greeting, user_message ''hello'']"]
    unfolding e p by simp
qed

section \<open>A sources record and then the end of the stream\<close>

text \<open>
  C8. The message list ends with the assistant's placeholder and no error is shown. The
  stream, however it is cut into chunks, holds one \<open>sources\<close> record and ends without a
  \<open>done\<close> record. The turn ends normally: the assistant's message stays in the list with the
  sources set and still thinking, no error is shown, and the processing flag is cleared.
\<close>

theorem sources_then_eof:
  assumes "streaming decode"
    and "records_of parse (butlast (split_nl (fst (decode d0 (concat cs))))) =
           map Some [sources_record v]"
  shows "stream_turn parse decode d0 (st\<lparr>messages := ms @ [placeholder], error := None\<rparr>)
           (map Chunk cs) =
         Some (st\<lparr>messages := ms @ [\<lparr>role = Assistant, content = [],
                                       sources = Some v, isThinking = Some True\<rparr>],
                  error := None,
                  isProcessing := False,
                  parsedLog := parsedLog st @ [sources_record v]\<rparr>)"
  unfolding stream_turn_def read_loop_whole_text [OF assms(1)] handle_lines_records [OF assms(2)]
  by (simp add: handle_data_def set_sources_def placeholder_def)

theorem sources_then_eof_witness:
  \<open>streaming ascii_decode \<and>
   records_of example_parse (butlast (split_nl (fst (ascii_decode () (concat
       [bytes_of ''data: {"type":"sources","sources":[{"sou'',
        bytes_of (''rce":"a.pdf","path":"/x/a.pdf"}]}'' @ [CHR 0x0A])]))))) =
     map Some [sources_record example_sources] \<and>
   stream_turn example_parse ascii_decode () submitted
       (map Chunk
       [bytes_of ''data: {"type":"sources","sources":[{"sou'',
        bytes_of (''rce":"a.pdf","path":"/x/a.pdf"}]}'' @ [CHR 0x0A])]) =
     Some (submitted\<lparr>messages := [greeting, user_message ''hello'',
                \<lparr>role = Assistant, content = [],
                 sources = Some example_sources, isThinking = Some True\<rparr>],
              error := None,
              isProcessing := False,
              parsedLog := [sources_record example_sources]\<rparr>)\<close>
proof -
  have s: "streaming ascii_decode"
    by (simp add: streaming_def ascii_decode_def)
  have r: \<open>records_of example_parse (butlast (split_nl (fst (ascii_decode () (concat
       [bytes_of ''data: {"type":"sources","sources":[{"sou'',
        bytes_of (''rce":"a.pdf","path":"/x/a.pdf"}]}'' @ [CHR 0x0A])]))))) =
     map Some [sources_record example_sources]\<close>
    by code_simp
  have e: "submitted\<lparr>messages := [greeting, user_message ''hello''] @ [placeholder], error := None\<rparr>
           = submitted"
    by (simp add: submitted_def initial_state_def)
  have p: "parsedLog submitted = []"
    by (simp add: submitted_def initial_state_def)
  show ?thesis
    using s r sources_then_eof [OF s r, where st = submitted
        and ms = "[greeting, user_message ''hello'']"]
    unfolding e p by simp
qed

section \<open>A token record without content\<close>

text \<open>
  C10. A record of type \<open>token\<close> whose \<open>content\<close> is absent changes nothing: the state
  (messages, error, flags) and the accumulated text are returned as they were, and nothing
  is thrown.
\<close>

theorem token_without_content:
  assumes "field data ''type'' = Some (JStr ''token'')" and "field data ''content'' = None"
  shows "handle_data st messageContent data = Ok st messageContent"
  using assms by (auto simp: handle_data_def)

theorem token_without_content_witness:
  "field (JObj [(''type'', JStr ''token'')]) ''type'' = Some (JStr ''token'') \<and>
   field (JObj [(''type'', JStr ''token'')]) ''content'' = None \<and>
   handle_data submitted ''Hi'' (JObj [(''type'', JStr ''token'')]) = Ok submitted ''Hi''"
proof -
  have t: "field (JObj [(''type'', JStr ''token'')]) ''type'' = Some (JStr ''token'')" by simp
  have c: "field (JObj [(''type'', JStr ''token'')]) ''content'' = None" by simp
  show ?thesis using t c token_without_content [OF t c] by blast
qed

section \<open>Records in sequence\<close>

lemma handle_records_append:
  "handle_records st mc (xs @ ys) =
     (case handle_records st mc xs of
        Ok st' mc' \<Rightarrow> handle_records st' mc' ys
      | Thrown e st' \<Rightarrow> Thrown e st'
      | RenderFailed \<Rightarrow> RenderFailed)"
  by (induction xs arbitrary: st mc) (auto split: outcome.splits)

lemma handle_data_error:
  "field d ''type'' = Some (JStr ''error'') \<Longrightarrow>
   handle_data st mc d = Thrown (error_thrown (field d ''error'')) st"
  by (auto simp: handle_data_def)

text \<open>The updaters, and so the records that do not throw, touch the last message only.\<close>

lemma set_sources_butlast: "set_sources v prev = Some ms \<Longrightarrow> butlast ms = butlast prev"
  by (auto simp: set_sources_def Let_def split: if_splits)

lemma set_token_butlast: "set_token c prev = Some ms \<Longrightarrow> butlast ms = butlast prev"
  by (auto simp: set_token_def Let_def split: if_splits)

lemma handle_data_butlast:
  "handle_data st mc d = Ok st' mc' \<Longrightarrow> butlast (messages st') = butlast (messages st)"
  by (auto simp: handle_data_def split: if_splits option.splits
      dest: set_sources_butlast set_token_butlast)

lemma handle_records_butlast:
  "handle_records st mc ds = Ok st' mc' \<Longrightarrow> butlast (messages st') = butlast (messages st)"
proof (induction ds arbitrary: st mc)
  case Nil
  then show ?case by simp
next
  case (Cons d ds)
  then show ?case
    by (auto split: outcome.splits dest!: handle_data_butlast)
qed

section \<open>An error record\<close>

text \<open>
  C3. When the records before an \<open>error\<close> record have been handled without an exception,
  the \<open>error\<close> record ends the turn on the \<open>catch\<close> block: the last message is removed
  from the list, the messages before it are those the turn started with, the processing
  flag is cleared, and the error hook holds the message of what the record made the
  client throw. That is the record's \<open>error\<close> text when this is a string (the text
  \<open>Unknown error occurred\<close> when the string is empty or the field is absent).
\<close>

theorem error_event_rolls_back:
  assumes "handle_records st mc pre = Ok st1 mc1"
    and "field err ''type'' = Some (JStr ''error'')"
  shows "finish_turn (handle_records st mc (pre @ err # post)) =
           Some (st1\<lparr>parsedLog := parsedLog st1 @ [err],
                     error := Some (message_of (error_thrown (field err ''error''))),
                     messages := butlast (messages st1),
                     isProcessing := False\<rparr>)
       \<and> butlast (messages st1) = butlast (messages st)
       \<and> (\<forall>s. field err ''error'' = Some (JStr s) \<longrightarrow>
            message_of (error_thrown (field err ''error'')) =
              Text (if s = [] then ''Unknown error occurred'' else s))
       \<and> (field err ''error'' = None \<longrightarrow>
            message_of (error_thrown (field err ''error'')) = Text ''Unknown error occurred'')"
  using assms handle_records_butlast [OF assms(1)]
  by (auto simp: handle_records_append handle_data_error catch_error_def)

theorem error_event_rolls_back_witness:
  "handle_records submitted [] [sources_record example_sources, token_record ''Hi''] =
     Ok (submitted\<lparr>messages := [greeting, user_message ''hello'',
                \<lparr>role = Assistant, content = ''Hi'',
                 sources = Some example_sources, isThinking = Some False\<rparr>],
              parsedLog := [sources_record example_sources, token_record ''Hi'']\<rparr>) ''Hi'' \<and>
   field (error_record ''boom'') ''type'' = Some (JStr ''error'') \<and>
   finish_turn (handle_records submitted []
       ([sources_record example_sources, token_record ''Hi''] @ error_record ''boom'' # [token_record '' there''])) =
     Some (submitted\<lparr>messages := [greeting, user_message ''hello''],
              parsedLog := [sources_record example_sources, token_record ''Hi'', error_record ''boom''],
              error := Some (Text ''boom''), isProcessing := False\<rparr>) \<and>
   finish_turn (handle_records submitted []
       ([sources_record example_sources, token_record ''Hi'']
          @ JObj [(''type'', JStr ''error''), (''error'', JObj [(''toString'', JNum ''0'')])] # [])) =
     Some (submitted\<lparr>messages := [greeting, user_message ''hello''],
              parsedLog := [sources_record example_sources, token_record ''Hi'',
                 JObj [(''type'', JStr ''error''), (''error'', JObj [(''toString'', JNum ''0'')])]],
              error := Some TypeErrorText, isProcessing := False\<rparr>)"
proof -
  have h: "handle_records submitted [] [sources_record example_sources, token_record ''Hi''] =
     Ok (submitted\<lparr>messages := [greeting, user_message ''hello'',
                \<lparr>role = Assistant, content = ''Hi'',
                 sources = Some example_sources, isThinking = Some False\<rparr>],
              parsedLog := [sources_record example_sources, token_record ''Hi'']\<rparr>) ''Hi''"
    by (simp add: handle_data_def set_sources_def set_token_def submitted_def initial_state_def
        placeholder_def)
  have t: "field (error_record ''boom'') ''type'' = Some (JStr ''error'')" by simp
  have u: "field (JObj [(''type'', JStr ''error''), (''error'', JObj [(''toString'', JNum ''0'')])])
             ''type'' = Some (JStr ''error'')" by simp
  show ?thesis
    using h t error_event_rolls_back [OF h t, of "[token_record '' there'']"]
      error_event_rolls_back [OF h u, of "[]"]
    by simp
qed

section \<open>Records after \<open>done\<close> and after \<open>error\<close>\<close>

text \<open>
  C5, as the specification states it, fails: a \<open>token\<close> record that arrives after a \<open>done\<close>
  record is appended to the content like any other.
\<close>

theorem events_after_done_counterexample:
  "map_option (map content \<circ> messages)
     (finish_turn (handle_records submitted [] [token_record ''Hi'', done_record])) =
     Some [''Hello there! How can I help you today?'', ''hello'', ''Hi''] \<and>
   map_option (map content \<circ> messages)
     (finish_turn (handle_records submitted [] [token_record ''Hi'', done_record, token_record '' there''])) =
     Some [''Hello there! How can I help you today?'', ''hello'', ''Hi there'']"
  by (simp add: handle_data_def set_sources_def set_token_def submitted_def initial_state_def
        placeholder_def greeting_def user_message_def)

text \<open>
  C5, amended. Records that arrive after an \<open>error\<close> record are not handled: the loop ends
  as it does when the \<open>error\<close> record is the last one. A \<open>done\<close> record only clears the
  processing flag, and the records after it are handled as before it.
\<close>

theorem events_after_error_ignored:
  assumes "field err ''type'' = Some (JStr ''error'')"
    and "field d ''type'' = Some (JStr ''done'')"
  shows "handle_records st mc (pre @ err # post) = handle_records st mc (pre @ [err])
       \<and> handle_records st mc (d # post) =
           handle_records (st\<lparr>parsedLog := parsedLog st @ [d], isProcessing := False\<rparr>) mc post"
proof -
  have "handle_data (st\<lparr>parsedLog := parsedLog st @ [d]\<rparr>) mc d =
        Ok (st\<lparr>parsedLog := parsedLog st @ [d], isProcessing := False\<rparr>) mc"
    using assms(2) by (auto simp: handle_data_def)
  then show ?thesis
    using assms(1)
    by (auto simp: handle_records_append handle_data_error split: outcome.splits)
qed

theorem events_after_error_ignored_witness:
  "field (error_record ''boom'') ''type'' = Some (JStr ''error'') \<and>
   field done_record ''type'' = Some (JStr ''done'') \<and>
   handle_records submitted [] ([token_record ''Hi''] @ error_record ''boom'' # [token_record '' there'']) =
   handle_records submitted [] ([token_record ''Hi''] @ [error_record ''boom'']) \<and>
   handle_records submitted [] (done_record # [token_record '' there'']) =
   handle_records (submitted\<lparr>parsedLog := parsedLog submitted @ [done_record], isProcessing := False\<rparr>) []
     [token_record '' there'']"
proof -
  have t: "field (error_record ''boom'') ''type'' = Some (JStr ''error'')" by simp
  have d: "field done_record ''type'' = Some (JStr ''done'')" by simp
  show ?thesis
    using t d events_after_error_ignored [OF t d] by blast
qed

section \<open>When the assistant's message stops thinking\<close>

text \<open>
  C4, as the specification states it, fails: a \<open>token\<close> record with empty content already
  ends the thinking; a \<open>sources\<close> record after a token sets the message thinking again; and
  a \<open>done\<close> record ends nothing, so that a token after it still ends the thinking.
\<close>

theorem thinking_counterexample:
  "map_option (isThinking \<circ> last \<circ> messages)
     (finish_turn (handle_records submitted [] [token_record []])) = Some (Some False) \<and>
   map_option (isThinking \<circ> last \<circ> messages)
     (finish_turn (handle_records submitted [] [token_record ''Hi'', sources_record example_sources])) =
     Some (Some True) \<and>
   map_option (isThinking \<circ> last \<circ> messages)
     (finish_turn (handle_records submitted [] [done_record])) = Some (Some True) \<and>
   map_option (isThinking \<circ> last \<circ> messages)
     (finish_turn (handle_records submitted [] [done_record, token_record ''Hi''])) = Some (Some False)"
  by (simp add: handle_data_def set_sources_def set_token_def submitted_def initial_state_def
        placeholder_def greeting_def user_message_def)

lemma throws_iff: "throws d \<longleftrightarrow> (\<exists>e. handle_data st mc d = Thrown e st)"
  by (auto simp: throws_def handle_data_def split: option.splits)

lemma handle_data_keeps_thinking:
  assumes "messages st \<noteq> []" "role (last (messages st)) = Assistant"
    "isThinking (last (messages st)) = Some True"
    "\<not> throws d"
    "field d ''type'' = Some (JStr ''token'') \<longrightarrow> field d ''content'' = None"
  shows "\<exists>st' mc'. handle_data st mc d = Ok st' mc' \<and> messages st' \<noteq> [] \<and>
           role (last (messages st')) = Assistant \<and> isThinking (last (messages st')) = Some True"
  using assms by (auto simp: throws_def handle_data_def set_sources_def Let_def)

lemma handle_records_keep_thinking:
  assumes "messages st \<noteq> []" "role (last (messages st)) = Assistant"
    "isThinking (last (messages st)) = Some True"
    "\<forall>d\<in>set pre. \<not> throws d \<and>
       (field d ''type'' = Some (JStr ''token'') \<longrightarrow> field d ''content'' = None)"
  shows "\<exists>st' mc'. handle_records st mc pre = Ok st' mc' \<and> messages st' \<noteq> [] \<and>
           role (last (messages st')) = Assistant \<and> isThinking (last (messages st')) = Some True"
  using assms
proof (induction pre arbitrary: st mc)
  case Nil
  then show ?case by simp
next
  case (Cons d ds)
  let ?st = "st\<lparr>parsedLog := parsedLog st @ [d]\<rparr>"
  have "\<exists>st' mc'. handle_data ?st mc d = Ok st' mc' \<and> messages st' \<noteq> [] \<and>
           role (last (messages st')) = Assistant \<and> isThinking (last (messages st')) = Some True"
    using Cons.prems by (intro handle_data_keeps_thinking) auto
  then obtain st' mc' where s: "handle_data ?st mc d = Ok st' mc'" "messages st' \<noteq> []"
      "role (last (messages st')) = Assistant" "isThinking (last (messages st')) = Some True"
    by blast
  from Cons.IH [OF s(2,3,4), of mc'] Cons.prems(4) s(1) show ?case by simp
qed

lemma handle_data_first_token:
  assumes "messages st \<noteq> []" "role (last (messages st)) = Assistant"
    "field tok ''type'' = Some (JStr ''token'')" "field tok ''content'' = Some c"
    "to_string c = Some text"
  shows "\<exists>st' mc'. handle_data st mc tok = Ok st' mc' \<and> messages st' \<noteq> [] \<and>
           role (last (messages st')) = Assistant \<and> isThinking (last (messages st')) = Some False"
  using assms by (auto simp: handle_data_def set_token_def Let_def)

lemma handle_data_stays_done_thinking:
  assumes "messages st \<noteq> []" "role (last (messages st)) = Assistant"
    "isThinking (last (messages st)) = Some False"
    "\<not> throws d" "field d ''type'' \<noteq> Some (JStr ''sources'')"
  shows "\<exists>st' mc'. handle_data st mc d = Ok st' mc' \<and> messages st' \<noteq> [] \<and>
           role (last (messages st')) = Assistant \<and> isThinking (last (messages st')) = Some False"
  using assms
  by (auto simp: throws_def handle_data_def set_token_def Let_def split: option.splits)

lemma handle_records_stay_done_thinking:
  assumes "messages st \<noteq> []" "role (last (messages st)) = Assistant"
    "isThinking (last (messages st)) = Some False"
    "\<forall>d\<in>set rest. \<not> throws d \<and> field d ''type'' \<noteq> Some (JStr ''sources'')"
  shows "\<exists>st' mc'. handle_records st mc rest = Ok st' mc' \<and> messages st' \<noteq> [] \<and>
           role (last (messages st')) = Assistant \<and> isThinking (last (messages st')) = Some False"
  using assms
proof (induction rest arbitrary: st mc)
  case Nil
  then show ?case by simp
next
  case (Cons d ds)
  let ?st = "st\<lparr>parsedLog := parsedLog st @ [d]\<rparr>"
  have "\<exists>st' mc'. handle_data ?st mc d = Ok st' mc' \<and> messages st' \<noteq> [] \<and>
           role (last (messages st')) = Assistant \<and> isThinking (last (messages st')) = Some False"
    using Cons.prems by (intro handle_data_stays_done_thinking) auto
  then obtain st' mc' where s: "handle_data ?st mc d = Ok st' mc'" "messages st' \<noteq> []"
      "role (last (messages st')) = Assistant" "isThinking (last (messages st')) = Some False"
    by blast
  from Cons.IH [OF s(2,3,4), of mc'] Cons.prems(4) s(1) show ?case by simp
qed

text \<open>
  C4, amended. The last message is the assistant's and is thinking. Through records at
  which the client does not throw (it throws at \<open>null\<close>, at an \<open>error\<close> record and at a
  \<open>token\<close> record whose content has no conversion to text) and which are not \<open>token\<close>
  records with a content, it keeps thinking. The first \<open>token\<close> record that has a content
  with a conversion to text, empty or not, ends the thinking, and it stays ended through
  every later record at which the client does not throw and which is not a \<open>sources\<close>
  record.
\<close>

theorem thinking_ends_at_first_token:
  assumes "messages st \<noteq> []" and "role (last (messages st)) = Assistant"
    and "isThinking (last (messages st)) = Some True"
    and "\<forall>d\<in>set pre. \<not> throws d \<and>
           (field d ''type'' = Some (JStr ''token'') \<longrightarrow> field d ''content'' = None)"
    and "field tok ''type'' = Some (JStr ''token'')" and "field tok ''content'' = Some c"
    and "to_string c = Some text"
    and "\<forall>d\<in>set rest. \<not> throws d \<and> field d ''type'' \<noteq> Some (JStr ''sources'')"
  shows "(\<exists>st1 mc1. handle_records st mc pre = Ok st1 mc1 \<and>
            isThinking (last (messages st1)) = Some True)
       \<and> (\<exists>st2 mc2. handle_records st mc (pre @ [tok]) = Ok st2 mc2 \<and>
            isThinking (last (messages st2)) = Some False)
       \<and> (\<exists>st3 mc3. handle_records st mc (pre @ tok # rest) = Ok st3 mc3 \<and>
            isThinking (last (messages st3)) = Some False)"
proof -
  obtain st1 mc1 where 1: "handle_records st mc pre = Ok st1 mc1" "messages st1 \<noteq> []"
      "role (last (messages st1)) = Assistant" "isThinking (last (messages st1)) = Some True"
    using handle_records_keep_thinking [OF assms(1-4)] by blast
  let ?st1 = "st1\<lparr>parsedLog := parsedLog st1 @ [tok]\<rparr>"
  have "\<exists>st' mc'. handle_data ?st1 mc1 tok = Ok st' mc' \<and> messages st' \<noteq> [] \<and>
           role (last (messages st')) = Assistant \<and> isThinking (last (messages st')) = Some False"
    using 1 assms(5,6,7) by (intro handle_data_first_token) auto
  then obtain st2 mc2 where 2: "handle_data ?st1 mc1 tok = Ok st2 mc2" "messages st2 \<noteq> []"
      "role (last (messages st2)) = Assistant" "isThinking (last (messages st2)) = Some False"
    by blast
  obtain st3 mc3 where 3: "handle_records st2 mc2 rest = Ok st3 mc3"
      "isThinking (last (messages st3)) = Some False"
    using handle_records_stay_done_thinking [OF 2(2,3,4) assms(8)] by blast
  show ?thesis using 1 2 3 by (simp add: handle_records_append)
qed

theorem thinking_ends_at_first_token_witness:
  "(\<exists>st1 mc1. handle_records submitted []
        [sources_record example_sources, done_record, JObj [(''type'', JStr ''token'')]] = Ok st1 mc1 \<and>
            isThinking (last (messages st1)) = Some True)
       \<and> (\<exists>st2 mc2. handle_records submitted []
        ([sources_record example_sources, done_record, JObj [(''type'', JStr ''token'')]] @ [token_record []])
           = Ok st2 mc2 \<and>
            isThinking (last (messages st2)) = Some False)
       \<and> (\<exists>st3 mc3. handle_records submitted []
        ([sources_record example_sources, done_record, JObj [(''type'', JStr ''token'')]] @ token_record []
            # [token_record ''Hi'', done_record]) = Ok st3 mc3 \<and>
            isThinking (last (messages st3)) = Some False)"
proof -
  have 1: "messages submitted \<noteq> []" by (simp add: submitted_def)
  have 2: "role (last (messages submitted)) = Assistant"
    by (simp add: submitted_def placeholder_def)
  have 3: "isThinking (last (messages submitted)) = Some True"
    by (simp add: submitted_def placeholder_def)
  have 4: "\<forall>d\<in>set [sources_record example_sources, done_record, JObj [(''type'', JStr ''token'')]].
       \<not> throws d \<and>
           (field d ''type'' = Some (JStr ''token'') \<longrightarrow> field d ''content'' = None)"
    by (simp add: throws_def)
  have 5: "field (token_record []) ''type'' = Some (JStr ''token'')" by simp
  have 6: "field (token_record []) ''content'' = Some (JStr [])" by simp
  have 7: "to_string (JStr []) = Some []" by simp
  have 8: "\<forall>d\<in>set [token_record ''Hi'', done_record].
       \<not> throws d \<and> field d ''type'' \<noteq> Some (JStr ''sources'')"
    by (simp add: throws_def)
  show ?thesis
    by (rule thinking_ends_at_first_token [OF 1 2 3 4 5 6 7 8])
qed

text \<open>
  A \<open>token\<close> record whose content has no conversion to text is one of the records left
  out above: the client throws before it touches the message, and the \<open>catch\<close> block
  removes the message.
\<close>

lemma token_without_text_example:
  "finish_turn (handle_records submitted []
      [JObj [(''type'', JStr ''token''), (''content'', JObj [(''toString'', JNum ''0'')])]]) =
   Some (submitted\<lparr>messages := [greeting, user_message ''hello''],
           parsedLog := [JObj [(''type'', JStr ''token''),
                               (''content'', JObj [(''toString'', JNum ''0'')])]],
           error := Some TypeErrorText, isProcessing := False\<rparr>)"
  by (simp add: handle_data_def catch_error_def submitted_def initial_state_def)

section \<open>A malformed record\<close>

text \<open>
  C7, as the specification states it, fails on a line that is the marker alone: it begins
  with \<open>data: \<close> and what follows, the empty text, is not JSON, but the line is trimmed
  before it is tested, no longer starts with the marker, and is passed over; the turn
  goes on and ends normally. It fails as well on a last line that no newline ends: the
  line stays in the buffer and is dropped when the stream ends.
\<close>

theorem marker_only_line_counterexample:
  \<open>take 6 ''data: '' = ''data: '' \<and>
   example_parse (drop 6 ''data: '') = None \<and>
   handle_line example_parse submitted [] ''data: '' = Ok submitted [] \<and>
   stream_turn example_parse ascii_decode () submitted
     [Chunk (bytes_of (''data: '' @ [CHR 0x0A] @ ''data: {"type":"token","content":"Hi"}'' @ [CHR 0x0A]))] =
   Some (submitted\<lparr>messages := [greeting, user_message ''hello'',
                \<lparr>role = Assistant, content = ''Hi'', sources = None, isThinking = Some False\<rparr>],
              parsedLog := [token_record ''Hi''], isProcessing := False\<rparr>) \<and>
   example_parse ''{"type":'' = None \<and>
   stream_turn example_parse ascii_decode () submitted [Chunk (bytes_of ''data: {"type":'')] =
   Some (submitted\<lparr>isProcessing := False\<rparr>)\<close>
  by code_simp

lemma trim_marker_only: "list_all is_ws ws \<Longrightarrow> trim (''data: '' @ ws) = ''data:''"
proof -
  assume ws: "list_all is_ws ws"
  have a: "dropWhile is_ws (''data: '' @ ws) = ''data: '' @ ws"
    by (simp add: is_ws_def)
  have "dropWhile is_ws (rev ws @ rev ''data: '') = dropWhile is_ws (rev ''data: '')"
    using ws by (intro dropWhile_append2) (simp add: list_all_iff)
  then have b: "dropWhile is_ws (rev (''data: '' @ ws)) = rev ''data:''"
    by (simp add: is_ws_def)
  show ?thesis
    unfolding trim_def a b by simp
qed

text \<open>
  C7, amended. A complete line (one that a newline ends) which, trimmed, starts with
  \<open>data: \<close> and whose rest (of the trimmed line) \<open>JSON.parse\<close> rejects ends the loop with the
  \<open>SyntaxError\<close>, whatever lines and chunks follow: the turn ends on the \<open>catch\<close> block, the
  last message is removed and the error hook is set. A line that is the marker followed
  by white space only is passed over, and what the buffer holds when the stream ends is
  dropped, with no error.
\<close>

theorem malformed_record_aborts:
  assumes "decode d value = (text, d')"
    and "butlast (split_nl (buffer @ text)) = pre @ line # post"
    and "handle_lines parse st mc pre = Ok st1 mc1"
    and "take 6 (trim line) = ''data: ''"
    and "parse (drop 6 (trim line)) = None"
  shows "handle_line parse st1 mc1 line = Thrown SyntaxError st1
       \<and> read_loop parse decode st d buffer mc (Chunk value # rest) = Thrown SyntaxError st1
       \<and> finish_turn (read_loop parse decode st d buffer mc (Chunk value # rest)) =
           Some (st1\<lparr>error := Some SyntaxErrorText, messages := butlast (messages st1),
                     isProcessing := False\<rparr>)
       \<and> (\<forall>ws s m. list_all is_ws ws \<longrightarrow>
            handle_line parse s m (''data: '' @ ws) = Ok s m)
       \<and> (\<forall>s e b m. finish_turn (read_loop parse decode s e b m []) =
            Some (s\<lparr>isProcessing := False\<rparr>))"
proof -
  have l: "handle_line parse st1 mc1 line = Thrown SyntaxError st1"
    using assms(4,5) by (simp add: handle_line_def)
  have "handle_lines parse st mc (pre @ line # post) = Thrown SyntaxError st1"
    by (simp add: handle_lines_append assms(3) l)
  then have r: "read_loop parse decode st d buffer mc (Chunk value # rest) = Thrown SyntaxError st1"
    by (simp add: assms(1,2))
  have k: "handle_line parse s m (''data: '' @ ws) = Ok s m" if "list_all is_ws ws" for ws s m
    unfolding handle_line_def trim_marker_only [OF that] by simp
  show ?thesis using l r k by (simp add: catch_error_def)
qed

theorem malformed_record_aborts_witness:
  \<open>ascii_decode () (bytes_of (''data: {"type":"token","content":"Hi"}'' @ [CHR 0x0A] @ ''data: {"type":'' @ [CHR 0x0A])) =
      (''data: {"type":"token","content":"Hi"}'' @ [CHR 0x0A] @ ''data: {"type":'' @ [CHR 0x0A], ()) \<and>
   butlast (split_nl ([] @ ''data: {"type":"token","content":"Hi"}'' @ [CHR 0x0A] @ ''data: {"type":'' @ [CHR 0x0A])) =
      [''data: {"type":"token","content":"Hi"}''] @ ''data: {"type":'' # [] \<and>
   handle_lines example_parse submitted [] [''data: {"type":"token","content":"Hi"}''] =
      Ok (submitted\<lparr>messages := [greeting, user_message ''hello'',
                \<lparr>role = Assistant, content = ''Hi'', sources = None, isThinking = Some False\<rparr>],
              parsedLog := [token_record ''Hi'']\<rparr>) ''Hi'' \<and>
   take 6 (trim ''data: {"type":'') = ''data: '' \<and>
   example_parse (drop 6 (trim ''data: {"type":'')) = None \<and>
   finish_turn (read_loop example_parse ascii_decode submitted () [] []
       (Chunk (bytes_of (''data: {"type":"token","content":"Hi"}'' @ [CHR 0x0A] @ ''data: {"type":'' @ [CHR 0x0A]))
         # [Chunk (bytes_of (''data: {"type":"done"}'' @ [CHR 0x0A]))])) =
      Some (submitted\<lparr>messages := [greeting, user_message ''hello''],
              parsedLog := [token_record ''Hi''],
              error := Some SyntaxErrorText, isProcessing := False\<rparr>) \<and>
   handle_line example_parse submitted [] (''data: '' @ [CHR 0x20, CHR 0x0D]) = Ok submitted [] \<and>
   finish_turn (read_loop example_parse ascii_decode submitted () ''data: {"type":'' [] []) =
      Some (submitted\<lparr>isProcessing := False\<rparr>)\<close>
proof -
  note t = malformed_record_aborts [where decode = ascii_decode and parse = example_parse]
  have 1: \<open>ascii_decode () (bytes_of (''data: {"type":"token","content":"Hi"}'' @ [CHR 0x0A] @ ''data: {"type":'' @ [CHR 0x0A])) =
      (''data: {"type":"token","content":"Hi"}'' @ [CHR 0x0A] @ ''data: {"type":'' @ [CHR 0x0A], ())\<close>
    by code_simp
  have 2: \<open>butlast (split_nl ([] @ ''data: {"type":"token","content":"Hi"}'' @ [CHR 0x0A] @ ''data: {"type":'' @ [CHR 0x0A])) =
      [''data: {"type":"token","content":"Hi"}''] @ ''data: {"type":'' # []\<close>
    by code_simp
  have 3: \<open>handle_lines example_parse submitted [] [''data: {"type":"token","content":"Hi"}''] =
      Ok (submitted\<lparr>messages := [greeting, user_message ''hello'',
                \<lparr>role = Assistant, content = ''Hi'', sources = None, isThinking = Some False\<rparr>],
              parsedLog := [token_record ''Hi'']\<rparr>) ''Hi''\<close>
    by code_simp
  have 4: \<open>take 6 (trim ''data: {"type":'') = ''data: ''\<close>
    by code_simp
  have 5: \<open>example_parse (drop 6 (trim ''data: {"type":'')) = None\<close>
    by code_simp
  have 6: \<open>finish_turn (read_loop example_parse ascii_decode submitted () [] []
       (Chunk (bytes_of (''data: {"type":"token","content":"Hi"}'' @ [CHR 0x0A] @ ''data: {"type":'' @ [CHR 0x0A]))
         # [Chunk (bytes_of (''data: {"type":"done"}'' @ [CHR 0x0A]))])) =
      Some (submitted\<lparr>messages := [greeting, user_message ''hello''],
              parsedLog := [token_record ''Hi''],
              error := Some SyntaxErrorText, isProcessing := False\<rparr>)\<close>
    by (rule trans [OF t [OF 1 2 3 4 5, THEN conjunct2, THEN conjunct2, THEN conjunct1]]) simp
  have w: "list_all is_ws [CHR 0x20, CHR 0x0D]"
    by (simp add: is_ws_def)
  have 7: "handle_line example_parse submitted [] (''data: '' @ [CHR 0x20, CHR 0x0D]) =
      Ok submitted []"
    using t [OF 1 2 3 4 5, THEN conjunct2, THEN conjunct2, THEN conjunct2, THEN conjunct1] w
    by blast
  have 8: \<open>finish_turn (read_loop example_parse ascii_decode submitted () ''data: {"type":'' [] []) =
      Some (submitted\<lparr>isProcessing := False\<rparr>)\<close>
    using t [OF 1 2 3 4 5, THEN conjunct2, THEN conjunct2, THEN conjunct2, THEN conjunct2]
    by blast
  show ?thesis
    by (intro conjI) (fact 1 2 3 4 5 6 7 8)+
qed

section \<open>The stop button\<close>

text \<open>
  C6, as the specification states it, fails: the read loop is not abandoned, and a token
  that arrives after the stop button was pressed is written to the message list.
\<close>

theorem stop_counterexample:
  \<open>messages (handleStop submitted) = [greeting, user_message ''hello'', placeholder] \<and>
   map_option messages (stream_turn example_parse ascii_decode () submitted
     [StopClicked, Chunk (bytes_of (''data: {"type":"token","content":"Hi"}'' @ [CHR 0x0A]))]) =
   Some [greeting, user_message ''hello'',
         \<lparr>role = Assistant, content = ''Hi'', sources = None, isThinking = Some False\<rparr>]\<close>
  by code_simp

lemma stopped_idem: "stopped (stopped out) = stopped out"
  by (cases out) (simp_all add: handleStop_def)

lemma handle_data_stopped:
  "handle_data (handleStop st) mc d = stopped (handle_data st mc d)"
  by (simp add: handle_data_def handleStop_def split: option.splits)

lemma handle_line_stopped:
  "handle_line parse (handleStop st) mc l = stopped (handle_line parse st mc l)"
proof -
  have "(handleStop st)\<lparr>parsedLog := parsedLog (handleStop st) @ [x]\<rparr> =
        handleStop (st\<lparr>parsedLog := parsedLog st @ [x]\<rparr>)" for x
    by (simp add: handleStop_def)
  then show ?thesis
    by (simp add: handle_line_def Let_def handle_data_stopped split: option.splits)
qed

lemma handle_lines_stopped:
  "handle_lines parse (handleStop st) mc ls = stopped (handle_lines parse st mc ls)"
proof (induction ls arbitrary: st mc)
  case Nil
  then show ?case by simp
next
  case (Cons l ls)
  then show ?case
    by (cases "handle_line parse st mc l") (simp_all add: handle_line_stopped)
qed

lemma read_loop_stopped:
  "read_loop parse decode (handleStop st) d buffer mc steps =
   stopped (read_loop parse decode st d buffer mc steps)"
proof (induction steps arbitrary: st d buffer mc)
  case Nil
  then show ?case by simp
next
  case (Cons step steps)
  show ?case
  proof (cases step)
    case (Chunk v)
    obtain t d' where dec: "decode d v = (t, d')" by (cases "decode d v")
    show ?thesis
      by (cases "handle_lines parse st mc (butlast (split_nl (buffer @ t)))")
        (simp_all add: Chunk dec handle_lines_stopped Cons.IH)
  next
    case ReadFailed
    then show ?thesis by simp
  next
    case StopClicked
    then show ?thesis by (simp add: Cons.IH stopped_idem)
  qed
qed

lemma read_loop_without_stops:
  "stopped (read_loop parse decode st d buffer mc steps) =
   stopped (read_loop parse decode st d buffer mc (without_stops steps))"
proof (induction steps arbitrary: st d buffer mc)
  case Nil
  then show ?case by simp
next
  case (Cons step steps)
  show ?case
  proof (cases step)
    case (Chunk v)
    obtain t d' where dec: "decode d v = (t, d')" by (cases "decode d v")
    show ?thesis
      by (cases "handle_lines parse st mc (butlast (split_nl (buffer @ t)))")
        (simp_all add: Chunk dec Cons.IH)
  next
    case ReadFailed
    then show ?thesis by simp
  next
    case StopClicked
    then show ?thesis by (simp add: read_loop_stopped stopped_idem Cons.IH)
  qed
qed

lemma finish_turn_stopped:
  "map_option handleStop (finish_turn out) = finish_turn (stopped out)"
  by (cases out) (simp_all add: handleStop_def catch_error_def)

lemma handle_data_requests: "same_requests st (handle_data st mc d)"
  by (simp add: handle_data_def split: option.splits)

lemma same_requests_log: "same_requests (st\<lparr>parsedLog := x\<rparr>) out = same_requests st out"
  by (cases out) simp_all

lemma handle_line_requests: "same_requests st (handle_line parse st mc l)"
proof (cases "parse (drop 6 (trim l))")
  case None
  then show ?thesis by (simp add: handle_line_def Let_def)
next
  case (Some x)
  then show ?thesis
    using handle_data_requests [of "st\<lparr>parsedLog := parsedLog st @ [x]\<rparr>" mc x]
    by (simp add: handle_line_def Let_def same_requests_log)
qed

lemma same_requests_trans:
  "requests st' = requests st \<Longrightarrow> same_requests st' out \<Longrightarrow> same_requests st out"
  by (cases out) simp_all

lemma handle_lines_requests: "same_requests st (handle_lines parse st mc ls)"
proof (induction ls arbitrary: st mc)
  case Nil
  then show ?case by simp
next
  case (Cons l ls)
  show ?case
  proof (cases "handle_line parse st mc l")
    case (Ok st' mc')
    with handle_line_requests [of st parse mc l] have "requests st' = requests st" by simp
    from same_requests_trans [OF this Cons.IH] Ok show ?thesis by simp
  next
    case (Thrown e st')
    with handle_line_requests [of st parse mc l] show ?thesis by simp
  next
    case RenderFailed
    then show ?thesis by simp
  qed
qed

lemma read_loop_requests: "same_requests st (read_loop parse decode st d buffer mc steps)"
proof (induction steps arbitrary: st d buffer mc)
  case Nil
  then show ?case by simp
next
  case (Cons step steps)
  show ?case
  proof (cases step)
    case (Chunk v)
    obtain t d' where dec: "decode d v = (t, d')" by (cases "decode d v")
    let ?h = "handle_lines parse st mc (butlast (split_nl (buffer @ t)))"
    show ?thesis
    proof (cases ?h)
      case (Ok st' mc')
      with handle_lines_requests [of st parse mc "butlast (split_nl (buffer @ t))"]
      have "requests st' = requests st" by simp
      from same_requests_trans [OF this Cons.IH] Ok show ?thesis by (simp add: Chunk dec)
    next
      case (Thrown e st')
      with handle_lines_requests [of st parse mc "butlast (split_nl (buffer @ t))"]
      show ?thesis by (simp add: Chunk dec)
    next
      case RenderFailed
      then show ?thesis by (simp add: Chunk dec)
    qed
  next
    case ReadFailed
    then show ?thesis by simp
  next
    case StopClicked
    have "requests (handleStop st) = requests st" by (simp add: handleStop_def)
    from same_requests_trans [OF this Cons.IH] StopClicked show ?thesis by simp
  qed
qed

text \<open>
  C6, amended. The stop button resets the component's thinking and processing flags and
  does nothing else: it sends no request and leaves the message list alone. The read loop
  goes on: up to these two flags, a turn ends in the state in which it ends when the
  button is never pressed, so every record decoded after the press is applied. No request
  is issued during the turn.
\<close>

theorem stop_only_resets_flags:
  "isThinkingFlag (handleStop st) = False
   \<and> isProcessing (handleStop st) = False
   \<and> requests (handleStop st) = requests st
   \<and> messages (handleStop st) = messages st
   \<and> error (handleStop st) = error st
   \<and> parsedLog (handleStop st) = parsedLog st
   \<and> map_option handleStop (stream_turn parse decode d0 st steps) =
       map_option handleStop (stream_turn parse decode d0 st (without_stops steps))
   \<and> (\<forall>st'. stream_turn parse decode d0 st steps = Some st' \<longrightarrow> requests st' = requests st)"
proof -
  have "finish_turn (stopped (read_loop parse decode st d0 [] [] steps)) =
        finish_turn (stopped (read_loop parse decode st d0 [] [] (without_stops steps)))"
    by (simp add: read_loop_without_stops [of parse decode st d0 "[]" "[]" steps])
  then have a: "map_option handleStop (stream_turn parse decode d0 st steps) =
       map_option handleStop (stream_turn parse decode d0 st (without_stops steps))"
    by (simp add: stream_turn_def finish_turn_stopped)
  have b: "requests st' = requests st" if "stream_turn parse decode d0 st steps = Some st'" for st'
    using that read_loop_requests [of st parse decode d0 "[]" "[]" steps]
    by (cases "read_loop parse decode st d0 [] [] steps")
      (auto simp: stream_turn_def catch_error_def)
  show ?thesis using a b by (simp add: handleStop_def)
qed

theorem stop_only_resets_flags_witness:
  \<open>isThinkingFlag (handleStop (submitted\<lparr>isThinkingFlag := True\<rparr>)) = False \<and>
   isProcessing (handleStop submitted) = False \<and>
   stream_turn example_parse ascii_decode () submitted
     [Chunk (bytes_of (''data: {"type":"token","content":"Hi"}'' @ [CHR 0x0A])), StopClicked,
      Chunk (bytes_of (''data: {"type":"token","content":" there"}'' @ [CHR 0x0A]))] =
   Some (submitted\<lparr>messages := [greeting, user_message ''hello'',
                \<lparr>role = Assistant, content = ''Hi there'', sources = None, isThinking = Some False\<rparr>],
              parsedLog := [token_record ''Hi'', token_record '' there''], isProcessing := False\<rparr>) \<and>
   requests (submitted\<lparr>messages := [greeting, user_message ''hello'',
                \<lparr>role = Assistant, content = ''Hi there'', sources = None, isThinking = Some False\<rparr>],
              parsedLog := [token_record ''Hi'', token_record '' there''], isProcessing := False\<rparr>) =
     requests submitted \<and>
   map_option handleStop (stream_turn example_parse ascii_decode () submitted
     [Chunk (bytes_of (''data: {"type":"token","content":"Hi"}'' @ [CHR 0x0A])), StopClicked,
      Chunk (bytes_of (''data: {"type":"token","content":" there"}'' @ [CHR 0x0A]))]) =
   map_option handleStop (stream_turn example_parse ascii_decode () submitted
     (without_stops [Chunk (bytes_of (''data: {"type":"token","content":"Hi"}'' @ [CHR 0x0A])), StopClicked,
      Chunk (bytes_of (''data: {"type":"token","content":" there"}'' @ [CHR 0x0A]))]))\<close>
proof -
  have e: \<open>stream_turn example_parse ascii_decode () submitted
     [Chunk (bytes_of (''data: {"type":"token","content":"Hi"}'' @ [CHR 0x0A])), StopClicked,
      Chunk (bytes_of (''data: {"type":"token","content":" there"}'' @ [CHR 0x0A]))] =
   Some (submitted\<lparr>messages := [greeting, user_message ''hello'',
                \<lparr>role = Assistant, content = ''Hi there'', sources = None, isThinking = Some False\<rparr>],
              parsedLog := [token_record ''Hi'', token_record '' there''], isProcessing := False\<rparr>)\<close>
    by code_simp
  have a: "isThinkingFlag (handleStop (submitted\<lparr>isThinkingFlag := True\<rparr>)) = False"
    by (rule stop_only_resets_flags [of "submitted\<lparr>isThinkingFlag := True\<rparr>"
          example_parse ascii_decode "()" "[]", THEN conjunct1])
  have b: "isProcessing (handleStop submitted) = False"
    by (rule stop_only_resets_flags [of submitted example_parse ascii_decode "()" "[]",
          THEN conjunct2, THEN conjunct1])
  show ?thesis
    using a b e stop_only_resets_flags [of submitted example_parse ascii_decode "()"
      "[Chunk (bytes_of (''data: {\"type\":\"token\",\"content\":\"Hi\"}'' @ [CHR 0x0A])), StopClicked,
      Chunk (bytes_of (''data: {\"type\":\"token\",\"content\":\" there\"}'' @ [CHR 0x0A]))]"]
    by blast
qed

section \<open>The exit of the child process\<close>

text \<open>
  C9, as the specification states it, fails: with the child ready and exit code 0, no
  restart is set up when there is no window or the window is destroyed, although
  \<open>stopBackend\<close> was never called; and after \<open>stopBackend\<close>, with a live window, the
  exit of the child still sets up the restart.
\<close>

theorem exit_handler_counterexample:
  "backendReady (ready_supervisor None) = True
   \<and> timers (on_exit (ready_supervisor None) (Some 0) None) = []
   \<and> timers (on_exit (ready_supervisor (Some True)) (Some 0) None) = []
   \<and> backendProcess (stopBackend (ready_supervisor (Some False))) = None
   \<and> timers (on_exit (stopBackend (ready_supervisor (Some False))) (Some 0) None) =
       [(5000, StartBackend)]"
  by (simp add: ready_supervisor_def on_exit_def stopBackend_def)

text \<open>
  C9, amended. When the child exits, whatever the exit code and the signal, the handler
  clears the readiness flag and, if the main window exists and is not destroyed, sets up
  a call of \<open>startBackend\<close> after 5000 milliseconds; otherwise it sets up nothing. The exit
  code is not consulted. A call of \<open>stopBackend\<close> before the exit changes nothing of this.
\<close>

theorem exit_handler:
  "on_exit sv code signal = on_exit sv code' signal'
   \<and> backendReady (on_exit sv code signal) = False
   \<and> timers (on_exit sv code signal) =
       (if mainWindow sv = Some False then timers sv @ [(5000, StartBackend)] else timers sv)
   \<and> timers (on_exit (stopBackend sv) code signal) =
       (if mainWindow sv = Some False then timers sv @ [(5000, StartBackend)] else timers sv)"
  by (auto simp: on_exit_def stopBackend_def Let_def split: option.splits)

theorem exit_handler_witness:
  "on_exit (ready_supervisor (Some False)) (Some 0) None =
     on_exit (ready_supervisor (Some False)) (Some 1) (Some ''SIGKILL'')
   \<and> backendReady (on_exit (ready_supervisor (Some False)) (Some 0) None) = False
   \<and> timers (on_exit (ready_supervisor (Some False)) (Some 0) None) = [(5000, StartBackend)]
   \<and> timers (on_exit (stopBackend (ready_supervisor (Some False))) (Some 0) None) =
       [(5000, StartBackend)]"
proof -
  have m: "mainWindow (ready_supervisor (Some False)) = Some False"
    "timers (ready_supervisor (Some False)) = []"
    by (simp_all add: ready_supervisor_def)
  note t = exit_handler [of "ready_supervisor (Some False)" "Some 0" None "Some 1"
      "Some ''SIGKILL''", unfolded m]
  have a: "on_exit (ready_supervisor (Some False)) (Some 0) None =
     on_exit (ready_supervisor (Some False)) (Some 1) (Some ''SIGKILL'')"
    by (rule t [THEN conjunct1])
  have b: "backendReady (on_exit (ready_supervisor (Some False)) (Some 0) None) = False"
    by (rule t [THEN conjunct2, THEN conjunct1])
  have c: "timers (on_exit (ready_supervisor (Some False)) (Some 0) None) = [(5000, StartBackend)]"
    using t [THEN conjunct2, THEN conjunct2, THEN conjunct1] by simp
  have d: "timers (on_exit (stopBackend (ready_supervisor (Some False))) (Some 0) None) =
       [(5000, StartBackend)]"
    using t [THEN conjunct2, THEN conjunct2, THEN conjunct2] by simp
  show ?thesis
    by (intro conjI) (fact a b c d)+
qed

end
